theory Spec2Isabelle
  imports Main "HOL-Library.AList"
begin

section \<open>Python strings and paths\<close>

text \<open>
  The converter is one Python module, \<open>src/main.py\<close>. Its strings are modelled as
  \<^typ>\<open>string\<close>, its exceptions as values of \<open>error\<close>, its dictionaries as
  association lists in insertion order (assignment is \<^const>\<open>AList.update\<close>, lookup is
  \<^const>\<open>map_of\<close>), and a \<open>pathlib\<close> path as the list of its \<open>parts\<close>, the root
  \<open>/\<close> being the first part of an absolute path.
\<close>

datatype error = KeyError | AttributeError | ValueError | IndexError | FileNotFoundError

definition nl :: string where
  "nl = [CHR 0x0A]"

definition startswith :: "string \<Rightarrow> string \<Rightarrow> bool" where
  "startswith s p = (take (length p) s = p)"

text \<open>\<open>sub in s\<close> on strings.\<close>

fun str_contains :: "string \<Rightarrow> string \<Rightarrow> bool" where
  "str_contains sub [] = (sub = [])"
| "str_contains sub (c # cs) = (startswith (c # cs) sub \<or> str_contains sub cs)"

text \<open>\<open>s.split(d)\<close> for a one-character separator: never the empty list.\<close>

fun split_on :: "char \<Rightarrow> string \<Rightarrow> string list" where
  "split_on d [] = [[]]"
| "split_on d (c # cs) =
     (if c = d then [] # split_on d cs
      else (case split_on d cs of w # ws \<Rightarrow> (c # w) # ws | [] \<Rightarrow> [[c]]))"

text \<open>\<open>sep.join(xs)\<close>.\<close>

fun join :: "string \<Rightarrow> string list \<Rightarrow> string" where
  "join sep [] = []"
| "join sep [x] = x"
| "join sep (x # y # ys) = x @ sep @ join sep (y # ys)"

type_synonym path = "string list"

definition anchored :: "path \<Rightarrow> bool" where
  "anchored p = (case p of [] \<Rightarrow> False | r # _ \<Rightarrow> r = ''/'' \<or> r = ''//'')"

text \<open>
  \<open>Path(s)\<close> on a POSIX system: the root is \<open>//\<close> for exactly two leading slashes
  and \<open>/\<close> for any other number of them; empty components and \<open>.\<close> are dropped.
\<close>

definition Path :: "string \<Rightarrow> path" where
  "Path s =
     (if startswith s ''//'' \<and> \<not> startswith s ''///'' then [''//'']
      else if startswith s ''/'' then [''/'']
      else [])
     @ filter (\<lambda>x. x \<noteq> [] \<and> x \<noteq> ''.'') (split_on CHR ''/'' s)"

definition tail :: "path \<Rightarrow> string list" where
  "tail p = (if anchored p then tl p else p)"

definition name :: "path \<Rightarrow> string" where
  "name p = (case rev (tail p) of [] \<Rightarrow> [] | x # _ \<Rightarrow> x)"

text \<open>\<open>s.rfind(".")\<close>, with \<open>None\<close> for Python's \<open>-1\<close>.\<close>

definition rfind_dot :: "string \<Rightarrow> nat option" where
  "rfind_dot s =
     (let k = length (takeWhile (\<lambda>c. c \<noteq> CHR ''.'') (rev s))
      in if k = length s then None else Some (length s - 1 - k))"

definition suffix :: "path \<Rightarrow> string" where
  "suffix p =
     (let n = name p
      in case rfind_dot n of
           None \<Rightarrow> []
         | Some i \<Rightarrow> if 0 < i \<and> i < length n - 1 then drop i n else [])"

definition stem :: "path \<Rightarrow> string" where
  "stem p =
     (let n = name p
      in case rfind_dot n of
           None \<Rightarrow> n
         | Some i \<Rightarrow> if 0 < i \<and> i < length n - 1 then take i n else n)"

definition parent :: "path \<Rightarrow> path" where
  "parent p = (if tail p = [] then p else butlast p)"

text \<open>\<open>a / b\<close>: an absolute right operand replaces the left one.\<close>

definition joinpath :: "path \<Rightarrow> path \<Rightarrow> path" where
  "joinpath a b = (if anchored b then b else a @ b)"

text \<open>\<open>str(p)\<close>.\<close>

definition path_str :: "path \<Rightarrow> string" where
  "path_str p =
     (if p = [] then ''.''
      else if anchored p then hd p @ join ''/'' (tl p)
      else join ''/'' p)"

text \<open>\<open>p.relative_to(other)\<close> raises \<open>ValueError\<close> unless \<open>other\<close> is an ancestor of \<open>p\<close>.\<close>

definition relative_to :: "path \<Rightarrow> path \<Rightarrow> error + path" where
  "relative_to p other =
     (if take (length other) p = other \<and> anchored p = anchored other
      then Inr (drop (length other) p)
      else Inl ValueError)"

section \<open>Frontmatter values\<close>

text \<open>
  The scalars a YAML frontmatter value can be: null, a boolean, an integer, a string, a
  date (year, month, day) and a datetime (with hour, minute, second). Sequences, mappings
  and floats are not modelled. A date or datetime built by the YAML loader is a valid
  Python object, which \<open>valid_timestamp\<close> records.
\<close>

datatype yaml =
    YNull
  | YBool bool
  | YInt int
  | YStr string
  | YDate nat nat nat
  | YDatetime nat nat nat nat nat nat

fun dec :: "nat \<Rightarrow> string" where
  "dec n = (if n < 10 then [char_of (48 + n)] else dec (n div 10) @ [char_of (48 + n mod 10)])"

declare dec.simps [simp del]

text \<open>A number in decimal, filled with zeros on the left to a least width (C's \<open>%0wd\<close>).\<close>

definition zpad :: "nat \<Rightarrow> nat \<Rightarrow> string" where
  "zpad w n = replicate (w - length (dec n)) CHR ''0'' @ dec n"



text \<open>
  \<open>v.strftime("%Y%m%d%H%M%S")\<close>, with the year as the library documents \<open>%Y\<close>: four
  digits, zero-filled. Only dates and datetimes have the method; on any other value the
  attribute lookup raises \<open>AttributeError\<close>.
\<close>

fun strftime :: "yaml \<Rightarrow> error + string" where
  "strftime (YDatetime y m d H M S) =
     Inr (zpad 4 y @ zpad 2 m @ zpad 2 d @ zpad 2 H @ zpad 2 M @ zpad 2 S)"
| "strftime (YDate y m d) =
     Inr (zpad 4 y @ zpad 2 m @ zpad 2 d @ zpad 2 0 @ zpad 2 0 @ zpad 2 0)"
| "strftime _ = Inl AttributeError"

text \<open>\<open>str(v)\<close>, as an f-string formats a value.\<close>

fun py_str :: "yaml \<Rightarrow> string" where
  "py_str YNull = ''None''"
| "py_str (YBool b) = (if b then ''True'' else ''False'')"
| "py_str (YInt i) = (if i < 0 then ''-'' @ dec (nat (- i)) else dec (nat i))"
| "py_str (YStr s) = s"
| "py_str (YDate y m d) = zpad 4 y @ ''-'' @ zpad 2 m @ ''-'' @ zpad 2 d"
| "py_str (YDatetime y m d H M S) =
     zpad 4 y @ ''-'' @ zpad 2 m @ ''-'' @ zpad 2 d @ '' ''
       @ zpad 2 H @ '':'' @ zpad 2 M @ '':'' @ zpad 2 S"

text \<open>Truth value of a value in a condition.\<close>

fun py_bool :: "yaml \<Rightarrow> bool" where
  "py_bool YNull = False"
| "py_bool (YBool b) = b"
| "py_bool (YInt i) = (i \<noteq> 0)"
| "py_bool (YStr s) = (s \<noteq> [])"
| "py_bool (YDate y m d) = True"
| "py_bool (YDatetime y m d H M S) = True"

section \<open>Slugs\<close>

definition is_upper :: "char \<Rightarrow> bool" where
  "is_upper c = (let n = (of_char c :: nat) in 65 \<le> n \<and> n \<le> 90)"

definition is_lower :: "char \<Rightarrow> bool" where
  "is_lower c = (let n = (of_char c :: nat) in 97 \<le> n \<and> n \<le> 122)"

definition is_digit :: "char \<Rightarrow> bool" where
  "is_digit c = (let n = (of_char c :: nat) in 48 \<le> n \<and> n \<le> 57)"

definition is_alnum :: "char \<Rightarrow> bool" where
  "is_alnum c = (is_lower c \<or> is_upper c \<or> is_digit c)"

definition lower_char :: "char \<Rightarrow> char" where
  "lower_char c = (if is_upper c then char_of ((of_char c :: nat) + 32) else c)"

text \<open>
  One pass over the text: an alphanumeric character is kept, and a run of other
  characters is replaced by one separator (\<open>in_run\<close> tells that the run has begun).
\<close>

fun collapse_runs :: "string \<Rightarrow> bool \<Rightarrow> string \<Rightarrow> string" where
  "collapse_runs sep in_run [] = []"
| "collapse_runs sep in_run (c # cs) =
     (if is_alnum c then c # collapse_runs sep False cs
      else if in_run then collapse_runs sep True cs
      else sep @ collapse_runs sep True cs)"

text \<open>
  Modelled from the spec: \<open>slugify\<close> is imported from the third-party package
  \<open>python-slugify\<close>, whose code is not part of the sources. The specification describes
  the normalisation as "lowercase ASCII, non-alphanumeric runs collapsed to a single
  separator character (e.g. underscore)"; this definition does exactly that and nothing
  more (no transliteration, no trimming of separators at the ends).
\<close>

definition slugify :: "string \<Rightarrow> string \<Rightarrow> string" where
  "slugify text separator = collapse_runs separator False (map lower_char text)"

section \<open>Notes\<close>

text \<open>
  \<open>frontmatter.Post\<close>: the metadata dictionary and the body of a note file.
\<close>

record Post =
  metadata :: "(string \<times> yaml) list"
  content :: string

text \<open>
  The dataclass \<open>NoteConverter\<close>. Its memo cell \<open>_org_content\<close> is empty after
  \<open>__post_init__\<close> and each converter is rendered once, so it is left out.
\<close>

record NoteConverter =
  input_dir :: path
  output_dir :: path
  source :: path
  md_note :: Post
  slug :: string

text \<open>
  The constructor with \<open>__post_init__\<close>; \<open>post\<close> is what
  \<open>frontmatter.loads(source.read_text())\<close> returned for the file.
\<close>

definition new_NoteConverter :: "path \<Rightarrow> path \<Rightarrow> path \<Rightarrow> Post \<Rightarrow> NoteConverter" where
  "new_NoteConverter inp out src post =
     \<lparr>input_dir = inp, output_dir = out, source = src, md_note = post,
      slug = slugify (stem src) ''_''\<rparr>"

definition meta :: "NoteConverter \<Rightarrow> (string \<times> yaml) list" where
  "meta c = metadata (md_note c)"

definition org_id :: "NoteConverter \<Rightarrow> string" where
  "org_id c = slug c"

text \<open>\<open>self.meta["created"]\<close> raises \<open>KeyError\<close> when the key is absent.\<close>

definition org_path :: "NoteConverter \<Rightarrow> error + string" where
  "org_path c =
     (case map_of (meta c) ''created'' of
        None \<Rightarrow> Inl KeyError
      | Some v \<Rightarrow>
          (case strftime v of
             Inl e \<Rightarrow> Inl e
           | Inr timestamp \<Rightarrow> Inr (timestamp @ ''-'' @ slug c @ ''.org'')))"

text \<open>\<open>md_note.get("title")\<close> is \<open>None\<close> for an absent key.\<close>

definition title :: "NoteConverter \<Rightarrow> yaml" where
  "title c =
     (let t = (case map_of (metadata (md_note c)) ''title'' of None \<Rightarrow> YNull | Some v \<Rightarrow> v)
      in if py_bool t then t else YStr (stem (source c)))"

definition get_org_meta :: "NoteConverter \<Rightarrow> error + (string \<times> yaml) list" where
  "get_org_meta c =
     (case relative_to (source c) (input_dir c) of
        Inl e \<Rightarrow> Inl e
      | Inr rel \<Rightarrow>
          (case rel of
             [] \<Rightarrow> Inl IndexError
           | section # _ \<Rightarrow>
               Inr [(''title'', title c), (''filetags'', YStr ('':'' @ section @ '':''))]))"

text \<open>
  \<open>_generate_org_content\<close>: \<open>pandoc\<close> stands for \<open>pypandoc.convert_text\<close> with the
  module's options. The method first builds the name of a cache file from \<open>org_path\<close>,
  which can raise; the cache file itself (under \<open>cache/pandoc\<close> in the working
  directory) is not modelled.
\<close>

definition generate_org_content :: "(string \<Rightarrow> string) \<Rightarrow> NoteConverter \<Rightarrow> error + string" where
  "generate_org_content pandoc c =
     (case org_path c of
        Inl e \<Rightarrow> Inl e
      | Inr cache_name \<Rightarrow> Inr (pandoc (content (md_note c))))"

definition org_content :: "(string \<Rightarrow> string) \<Rightarrow> NoteConverter \<Rightarrow> error + string" where
  "org_content pandoc c = generate_org_content pandoc c"

definition as_org :: "(string \<Rightarrow> string) \<Rightarrow> NoteConverter \<Rightarrow> error + string" where
  "as_org pandoc c =
     (case org_content pandoc c of
        Inl e \<Rightarrow> Inl e
      | Inr body \<Rightarrow>
          (case get_org_meta c of
             Inl e \<Rightarrow> Inl e
           | Inr items \<Rightarrow>
               Inr ('':PROPERTIES:'' @ nl @ '':ID: '' @ org_id c @ nl @ '':END:'' @ nl
                    @ join nl (map (\<lambda>(k, v). ''#+'' @ k @ '': '' @ py_str v) items)
                    @ nl @ nl @ body)))"

definition get_org_roam_link :: "NoteConverter \<Rightarrow> string option \<Rightarrow> string" where
  "get_org_roam_link c link_text =
     (let shown = (case link_text of None \<Rightarrow> py_str (title c) | Some t \<Rightarrow> t)
      in ''[[id:'' @ org_id c @ ''][''  @ shown @ '']]'')"

section \<open>The vault\<close>

text \<open>
  The output tree and the vault's files: a dictionary from paths to the contents of
  regular files. Directories are implicit, so \<open>mkdir\<close> changes nothing, and a write
  never fails; a read fails when the file is absent.
\<close>

type_synonym fs = "(path \<times> string) list"

definition is_file :: "fs \<Rightarrow> path \<Rightarrow> bool" where
  "is_file files p = (map_of files p \<noteq> None)"

definition write_text :: "fs \<Rightarrow> path \<Rightarrow> string \<Rightarrow> fs" where
  "write_text files p text = AList.update p text files"

definition shutil_copy :: "fs \<Rightarrow> path \<Rightarrow> path \<Rightarrow> error + fs" where
  "shutil_copy files src dst =
     (case map_of files src of
        None \<Rightarrow> Inl FileNotFoundError
      | Some bytes \<Rightarrow> Inr (AList.update dst bytes files))"

record VaultConverter =
  vault_map :: "(path \<times> NoteConverter) list"
  asset_map :: "(path \<times> path) list"
  vault_output_dir :: path

text \<open>The list comprehension of \<open>from_stem\<close>: the keys whose stem is the one asked for.\<close>

definition stem_matches :: "VaultConverter \<Rightarrow> string \<Rightarrow> path list" where
  "stem_matches v st = filter (\<lambda>p. stem p = st) (map fst (vault_map v))"

definition from_stem :: "VaultConverter \<Rightarrow> string \<Rightarrow> error + NoteConverter option" where
  "from_stem v st =
     (case stem_matches v st of
        [] \<Rightarrow> Inr None
      | m # ms \<Rightarrow>
          if length (m # ms) > 1 then Inl ValueError
          else (case map_of (vault_map v) m of
                  None \<Rightarrow> Inl KeyError
                | Some note \<Rightarrow> Inr (Some note)))"

text \<open>
  \<open>ensure_link\<close> returns a string on every path; the result is an optional string so
  that the caller's test of the returned value can be written down. The second component
  is the file system after the call.
\<close>

definition ensure_link ::
  "VaultConverter \<Rightarrow> string \<Rightarrow> string option \<Rightarrow> fs \<Rightarrow> (error + string option) \<times> fs" where
  "ensure_link v requested_link link_text files =
     (let base = last (split_on CHR ''/'' requested_link)
      in case from_stem v base of
           Inl e \<Rightarrow> (Inl e, files)
         | Inr (Some note) \<Rightarrow> (Inr (Some (get_org_roam_link note link_text)), files)
         | Inr None \<Rightarrow>
             (let link_path = Path requested_link
              in case map_of (asset_map v) link_path of
                   Some asset_path \<Rightarrow>
                     (let output_path = joinpath (vault_output_dir v) link_path
                      in if \<not> is_file files output_path
                         then (case shutil_copy files asset_path output_path of
                                 Inl e \<Rightarrow> (Inl e, files)
                               | Inr files' \<Rightarrow>
                                   (Inr (Some (''[['' @ path_str link_path @ '']]'')), files'))
                         else (Inr (Some (''[['' @ path_str link_path @ '']]'')), files))
                 | None \<Rightarrow>
                     (case link_text of
                        Some t \<Rightarrow>
                          if t \<noteq> [] then (Inr (Some (''/'' @ t @ ''/'')), files)
                          else (Inr (Some (''/'' @ requested_link @ ''/'')), files)
                      | None \<Rightarrow> (Inr (Some (''/'' @ requested_link @ ''/'')), files))))"

section \<open>Rendering a note\<close>

text \<open>
  The pattern \<open>ORG_LINK\<close> at the head of a string: \<open>[[file:\<close>, a non-empty link
  without \<open>]\<close>, \<open>]\<close>, then either \<open>[\<close>, a non-empty title without \<open>]\<close> and \<open>]]\<close>, or
  \<open>]\<close> at once. Both groups are lazy but can only end at the first \<open>]\<close>. The result is
  the link, the title and the length of the match.
\<close>

definition match_link :: "string \<Rightarrow> (string \<times> string option \<times> nat) option" where
  "match_link s =
     (if \<not> startswith s ''[[file:'' then None
      else
        (let r = drop 7 s;
             link = takeWhile (\<lambda>c. c \<noteq> CHR '']'') r;
             r1 = dropWhile (\<lambda>c. c \<noteq> CHR '']'') r
         in if link = [] \<or> r1 = [] then None
            else
              (case tl r1 of
                 [] \<Rightarrow> None
               | c # r3 \<Rightarrow>
                   if c = CHR '']'' then Some (link, None, 7 + length link + 2)
                   else if c = CHR ''['' then
                     (let ttl = takeWhile (\<lambda>c. c \<noteq> CHR '']'') r3;
                          r4 = dropWhile (\<lambda>c. c \<noteq> CHR '']'') r3
                      in if ttl \<noteq> [] \<and> take 2 r4 = '']]''
                         then Some (link, Some ttl, 7 + length link + 2 + length ttl + 2)
                         else None)
                   else None)))"

text \<open>
  The matches \<open>re.sub\<close> finds, left to right and without overlap, between the characters
  it copies. \<open>skip\<close> counts the characters of the last match still to be passed over.
\<close>

datatype token = Lit char | Link string string "string option"

fun finditer :: "nat \<Rightarrow> string \<Rightarrow> token list" where
  "finditer skip [] = []"
| "finditer (Suc skip) (c # cs) = finditer skip cs"
| "finditer 0 (c # cs) =
     (case match_link (c # cs) of
        None \<Rightarrow> Lit c # finditer 0 cs
      | Some (link, ttl, n) \<Rightarrow> Link (take n (c # cs)) link ttl # finditer (n - 1) cs)"

text \<open>The callback of the substitution; \<open>fallback\<close> is the matched text.\<close>

definition find_link ::
  "VaultConverter \<Rightarrow> string \<Rightarrow> string \<Rightarrow> string option \<Rightarrow> fs \<Rightarrow> (error + string) \<times> fs" where
  "find_link vault fallback link_match ttl files =
     (case ensure_link vault link_match ttl files of
        (Inl e, files') \<Rightarrow> (Inl e, files')
      | (Inr link, files') \<Rightarrow>
          (case link of
             Some l \<Rightarrow> if l \<noteq> [] then (Inr l, files') else (Inr fallback, files')
           | None \<Rightarrow> (Inr fallback, files')))"

fun sub_links :: "VaultConverter \<Rightarrow> token list \<Rightarrow> fs \<Rightarrow> (error + string) \<times> fs" where
  "sub_links vault [] files = (Inr [], files)"
| "sub_links vault (Lit c # ts) files =
     (case sub_links vault ts files of
        (Inl e, files') \<Rightarrow> (Inl e, files')
      | (Inr out, files') \<Rightarrow> (Inr (c # out), files'))"
| "sub_links vault (Link m link_match ttl # ts) files =
     (case find_link vault m link_match ttl files of
        (Inl e, files') \<Rightarrow> (Inl e, files')
      | (Inr r, files') \<Rightarrow>
          (case sub_links vault ts files' of
             (Inl e, files'') \<Rightarrow> (Inl e, files'')
           | (Inr out, files'') \<Rightarrow> (Inr (r @ out), files'')))"

text \<open>
  \<open>process_note\<close> has no exception handler: whatever \<open>org_path\<close>, \<open>as_org\<close> or a link
  resolution raises leaves the function, and the note's file is not written.
\<close>

definition process_note ::
  "(string \<Rightarrow> string) \<Rightarrow> NoteConverter \<times> VaultConverter \<Rightarrow> fs \<Rightarrow> (error + unit) \<times> fs" where
  "process_note pandoc args files =
     (case args of (converter, vault) \<Rightarrow>
        (case org_path converter of
           Inl e \<Rightarrow> (Inl e, files)
         | Inr file_name \<Rightarrow>
             (let out_path = joinpath (vault_output_dir vault) (Path file_name)
              in case as_org pandoc converter of
                   Inl e \<Rightarrow> (Inl e, files)
                 | Inr text \<Rightarrow>
                     (case sub_links vault (finditer 0 text) files of
                        (Inl e, files') \<Rightarrow> (Inl e, files')
                      | (Inr new_text, files') \<Rightarrow>
                          (Inr (), write_text files' out_path new_text)))))"

section \<open>The driver\<close>

definition CONTENT_SUFFIXES :: "string list" where
  "CONTENT_SUFFIXES = [''.md'']"

definition ASSET_SUFFIXES :: "string list" where
  "ASSET_SUFFIXES = [''.jpg'', ''.png'']"

text \<open>
  What \<open>main\<close> takes from outside the module: the document converter, the parsed
  frontmatter of each file, whether the input directory exists, and the paths that
  \<open>input_dir.glob("**/*.*")\<close> yields.
\<close>

record Env =
  convert_text :: "string \<Rightarrow> string"
  read_post :: "path \<Rightarrow> Post"
  input_exists :: bool
  globbed :: "path list"

text \<open>The three tests that make the loop skip a content file.\<close>

definition skipped :: "path \<Rightarrow> bool" where
  "skipped p =
     (startswith (stem (parent p)) ''_''
      \<or> startswith (stem p) ''_''
      \<or> str_contains ''/config/'' (path_str p))"

text \<open>
  The loop of \<open>main\<close> over the globbed paths, with the two dictionaries it fills. An
  asset is stored before any of the three tests is reached.
\<close>

fun scan_vault ::
  "Env \<Rightarrow> path \<Rightarrow> path \<Rightarrow> path list \<Rightarrow> (path \<times> path) list \<Rightarrow> (path \<times> NoteConverter) list
     \<Rightarrow> error + ((path \<times> path) list \<times> (path \<times> NoteConverter) list)" where
  "scan_vault E inp out [] am vm = Inr (am, vm)"
| "scan_vault E inp out (p # ps) am vm =
     (case relative_to p inp of
        Inl e \<Rightarrow> Inl e
      | Inr vault_path \<Rightarrow>
          if suffix p \<in> set ASSET_SUFFIXES
          then scan_vault E inp out ps (AList.update vault_path p am) vm
          else if suffix p \<in> set CONTENT_SUFFIXES
          then (if startswith (stem (parent p)) ''_'' then scan_vault E inp out ps am vm
                else if startswith (stem p) ''_'' then scan_vault E inp out ps am vm
                else if str_contains ''/config/'' (path_str p) then scan_vault E inp out ps am vm
                else scan_vault E inp out ps am
                       (AList.update vault_path (new_NoteConverter inp out p (read_post E p)) vm))
          else scan_vault E inp out ps am vm)"

text \<open>
  \<open>Pool.map\<close> hands every job to a worker and raises in the caller the failure of a job.
  The model runs the jobs in the order of the list, which is one schedule of the pool,
  and returns the first failure; the output tree of a failed run is not part of the
  result.
\<close>

fun pool_map :: "('a \<Rightarrow> fs \<Rightarrow> (error + unit) \<times> fs) \<Rightarrow> 'a list \<Rightarrow> fs \<Rightarrow> error + fs" where
  "pool_map f [] files = Inr files"
| "pool_map f (x # xs) files =
     (case f x files of
        (Inl e, files') \<Rightarrow> Inl e
      | (Inr u, files') \<Rightarrow> pool_map f xs files')"

definition render_jobs :: "VaultConverter \<Rightarrow> (NoteConverter \<times> VaultConverter) list" where
  "render_jobs vault = map (\<lambda>converter. (converter, vault)) (map snd (vault_map vault))"

definition main :: "Env \<Rightarrow> string \<Rightarrow> string \<Rightarrow> fs \<Rightarrow> error + fs" where
  "main E arg_input arg_output files =
     (let inp = Path arg_input; out = Path arg_output
      in if \<not> input_exists E then Inl ValueError
         else (case scan_vault E inp out (globbed E) [] [] of
                 Inl e \<Rightarrow> Inl e
               | Inr (am, vm) \<Rightarrow>
                   (let vault = \<lparr>vault_map = vm, asset_map = am, vault_output_dir = out\<rparr>
                    in pool_map (process_note (convert_text E)) (render_jobs vault) files)))"

section \<open>The file name pattern of the specification\<close>



section \<open>Notions used in the statements\<close>

text \<open>A note as it would be had its frontmatter no \<open>title\<close> key.\<close>

definition drop_title :: "NoteConverter \<Rightarrow> NoteConverter" where
  "drop_title c =
     c\<lparr>md_note := (md_note c)\<lparr>metadata := AList.delete ''title'' (metadata (md_note c))\<rparr>\<rparr>"

text \<open>
  The text a link to a note shows when the reference has none of its own: the title of
  the metadata when it is there and true in a condition, else the stem of the file.
\<close>

definition shown_title :: "NoteConverter \<Rightarrow> string" where
  "shown_title c =
     (case map_of (metadata (md_note c)) ''title'' of
        None \<Rightarrow> stem (source c)
      | Some v \<Rightarrow> if py_bool v then py_str v else stem (source c))"


text \<open>The keys whose normalised stem is the normalised form of the stem asked for.\<close>

definition normalized_matches :: "VaultConverter \<Rightarrow> string \<Rightarrow> path list" where
  "normalized_matches v st =
     filter (\<lambda>p. slugify (stem p) ''_'' = slugify st ''_'') (map fst (vault_map v))"

text \<open>What the loop of the driver keeps true of the two dictionaries.\<close>

definition note_inv :: "path \<Rightarrow> (path \<times> NoteConverter) list \<Rightarrow> bool" where
  "note_inv inp vm =
     (\<forall>(k, c) \<in> set vm.
        suffix (source c) \<in> set CONTENT_SUFFIXES \<and> \<not> skipped (source c)
        \<and> relative_to (source c) inp = Inr k)"

definition asset_inv :: "path \<Rightarrow> (path \<times> path) list \<Rightarrow> bool" where
  "asset_inv inp am =
     (\<forall>(k, a) \<in> set am. suffix a \<in> set ASSET_SUFFIXES \<and> relative_to a inp = Inr k)"

section \<open>Example vaults\<close>

definition ex_post :: Post where
  "ex_post =
     \<lparr>metadata = [(''title'', YStr ''Foo Title''), (''created'', YDatetime 2024 1 2 3 4 5)],
      content = ''see [[file:notes/bar]]''\<rparr>"


definition ex_bare :: Post where
  "ex_bare = \<lparr>metadata = [], content = []\<rparr>"

definition ex_blank :: Post where
  "ex_blank =
     \<lparr>metadata = [(''title'', YStr []), (''created'', YDatetime 2024 1 2 3 4 5)], content = []\<rparr>"

definition ex_linking :: Post where
  "ex_linking =
     \<lparr>metadata = [(''created'', YDatetime 2024 1 2 3 4 5)], content = ''see [[file:notes/foo]]''\<rparr>"

definition ex_note :: NoteConverter where
  "ex_note = new_NoteConverter [''vault''] [''out''] [''vault'', ''notes'', ''foo.md''] ex_post"

definition ex_vault :: VaultConverter where
  "ex_vault =
     \<lparr>vault_map = [([''notes'', ''foo.md''], ex_note)],
      asset_map = [([''images'', ''pic.png''], [''vault'', ''images'', ''pic.png''])],
      vault_output_dir = [''out'']\<rparr>"

definition ex_files :: fs where
  "ex_files = [([''vault'', ''images'', ''pic.png''], ''PNG'')]"

text \<open>Two notes whose stems differ only in case, and two notes with the same stem.\<close>

definition cx_upper :: NoteConverter where
  "cx_upper = new_NoteConverter [''vault''] [''out''] [''vault'', ''a'', ''Foo.md''] ex_post"

definition cx_lower :: NoteConverter where
  "cx_lower = new_NoteConverter [''vault''] [''out''] [''vault'', ''b'', ''foo.md''] ex_post"

definition cx_vault :: VaultConverter where
  "cx_vault =
     \<lparr>vault_map = [([''a'', ''Foo.md''], cx_upper), ([''b'', ''foo.md''], cx_lower)],
      asset_map = [], vault_output_dir = [''out'']\<rparr>"

definition dup_vault :: VaultConverter where
  "dup_vault =
     \<lparr>vault_map = [([''a'', ''foo.md''], ex_note), ([''b'', ''foo.md''], cx_lower)],
      asset_map = [], vault_output_dir = [''out'']\<rparr>"

definition ex_linker :: NoteConverter where
  "ex_linker = new_NoteConverter [''vault''] [''out''] [''vault'', ''c'', ''index.md''] ex_linking"

text \<open>A vault with an image and a note in a directory \<open>_private\<close>.\<close>

definition ex_env :: Env where
  "ex_env =
     \<lparr>convert_text = (\<lambda>s. s), read_post = (\<lambda>p. ex_post), input_exists = True,
      globbed = [[''vault'', ''_private'', ''pic.png''], [''vault'', ''_private'', ''secret.md''],
                 [''vault'', ''notes'', ''foo.md'']]\<rparr>"

text \<open>A vault of two notes, the second without \<open>created\<close>.\<close>

definition cx_read :: "path \<Rightarrow> Post" where
  "cx_read p = (if p = [''vault'', ''notes'', ''bad.md''] then ex_bare else ex_post)"

definition cx_env :: Env where
  "cx_env =
     \<lparr>convert_text = (\<lambda>s. s), read_post = cx_read, input_exists = True,
      globbed = [[''vault'', ''notes'', ''good.md''], [''vault'', ''notes'', ''bad.md'']]\<rparr>"

definition cx_good :: NoteConverter where
  "cx_good = new_NoteConverter [''vault''] [''out''] [''vault'', ''notes'', ''good.md''] ex_post"

definition cx_bad :: NoteConverter where
  "cx_bad = new_NoteConverter [''vault''] [''out''] [''vault'', ''notes'', ''bad.md''] ex_bare"

definition cx_pair :: VaultConverter where
  "cx_pair =
     \<lparr>vault_map = [([''notes'', ''good.md''], cx_good), ([''notes'', ''bad.md''], cx_bad)],
      asset_map = [], vault_output_dir = [''out'']\<rparr>"

section \<open>Normalisation of stems\<close>

lemma lower_char_idem: "lower_char (lower_char c) = lower_char c"
  by (auto simp: lower_char_def is_upper_def Let_def)

lemma is_alnum_lower_char: "is_alnum (lower_char c) = is_alnum c"
  by (auto simp: lower_char_def is_upper_def is_alnum_def is_lower_def is_digit_def Let_def)

lemma underscore_plain: "\<not> is_alnum CHR ''_''" "lower_char CHR ''_'' = CHR ''_''"
  by (simp_all add: is_alnum_def is_lower_def is_upper_def is_digit_def lower_char_def)

lemma collapse_runs_again:
  "collapse_runs ''_'' b (map lower_char (collapse_runs ''_'' b (map lower_char s)))
     = collapse_runs ''_'' b (map lower_char s)"
  by (induction s arbitrary: b) (auto simp: lower_char_idem is_alnum_lower_char underscore_plain)

text \<open>
  C8. Normalising a stem twice gives the same identifier as normalising it once, for
  every string and the separator the converter passes.
\<close>

theorem slugify_idempotent: "slugify (slugify s ''_'') ''_'' = slugify s ''_''"
  unfolding slugify_def by (rule collapse_runs_again)







section \<open>Output file names\<close>













section \<open>Titles\<close>

lemma title_falsy:
  "map_of (metadata (md_note c)) ''title'' = Some v \<Longrightarrow> \<not> py_bool v
     \<Longrightarrow> title c = YStr (stem (source c))"
  by (simp add: title_def)

lemma title_drop_title: "title (drop_title c) = YStr (stem (source c))"
  by (simp add: title_def drop_title_def delete_conv)

lemma org_path_drop_title: "org_path (drop_title c) = org_path c"
  by (simp add: org_path_def meta_def drop_title_def delete_conv split: option.splits sum.splits)

lemma get_org_meta_title_eq:
  "title c = title c' \<Longrightarrow> source c = source c' \<Longrightarrow> input_dir c = input_dir c'
     \<Longrightarrow> get_org_meta c = get_org_meta c'"
  by (simp add: get_org_meta_def split: sum.splits list.splits)

text \<open>
  C10. When the frontmatter sets \<open>title\<close> to a value that is false in a condition (the
  empty string, null, \<open>false\<close>, 0), the title of the note is the stem of its file; the
  rendered text with its metadata block, and the link to the note for every display
  text, are those of the same note without the \<open>title\<close> key.
\<close>

theorem falsy_title_fallback:
  assumes "map_of (metadata (md_note c)) ''title'' = Some v" and "\<not> py_bool v"
  shows "title c = YStr (stem (source c))
       \<and> as_org pandoc c = as_org pandoc (drop_title c)
       \<and> get_org_roam_link c None = ''[[id:'' @ org_id c @ ''][''  @ stem (source c) @ '']]''
       \<and> get_org_roam_link c link_text = get_org_roam_link (drop_title c) link_text"
proof -
  have t: "title c = YStr (stem (source c))"
    using assms by (rule title_falsy)
  have t': "title (drop_title c) = title c"
    by (simp add: t title_drop_title)
  have m: "get_org_meta (drop_title c) = get_org_meta c"
  proof (rule get_org_meta_title_eq)
    show "title (drop_title c) = title c" by (rule t')
  qed (simp_all add: drop_title_def)
  have c1: "content (md_note (drop_title c)) = content (md_note c)"
    by (simp add: drop_title_def)
  have c2: "org_id (drop_title c) = org_id c"
    by (simp add: org_id_def drop_title_def)
  have a: "as_org pandoc c = as_org pandoc (drop_title c)"
    unfolding as_org_def org_content_def generate_org_content_def org_path_drop_title m c1 c2
    by (rule refl)
  have l: "get_org_roam_link c link_text = get_org_roam_link (drop_title c) link_text"
    unfolding get_org_roam_link_def t' c2 by (rule refl)
  have n: "get_org_roam_link c None = ''[[id:'' @ org_id c @ ''][''  @ stem (source c) @ '']]''"
    by (simp add: get_org_roam_link_def t)
  from t a l n show ?thesis by blast
qed

theorem falsy_title_fallback_witness:
  "title (new_NoteConverter [''vault''] [''out''] [''vault'', ''notes'', ''Foo Bar.md''] ex_blank)
     = YStr ''Foo Bar''
   \<and> get_org_roam_link
        (new_NoteConverter [''vault''] [''out''] [''vault'', ''notes'', ''Foo Bar.md''] ex_blank) None
     = ''[[id:foo_bar][Foo Bar]]''"
proof -
  let ?c = "new_NoteConverter [''vault''] [''out''] [''vault'', ''notes'', ''Foo Bar.md''] ex_blank"
  have h1: "map_of (metadata (md_note ?c)) ''title'' = Some (YStr [])"
    by (simp add: new_NoteConverter_def ex_blank_def)
  have h2: "\<not> py_bool (YStr [])"
    by simp
  have st: "stem (source ?c) = ''Foo Bar''"
    by code_simp
  have oid: "org_id ?c = ''foo_bar''"
    by code_simp
  note T = falsy_title_fallback[OF h1 h2]
  have a: "title ?c = YStr ''Foo Bar''"
    using T[THEN conjunct1] unfolding st .
  have b: "get_org_roam_link ?c None = ''[[id:foo_bar][Foo Bar]]''"
    using T[THEN conjunct2, THEN conjunct2, THEN conjunct1] unfolding st oid
    by (simp only: append.simps)
  from a b show ?thesis by (rule conjI)
qed

section \<open>Looking a note up by its stem\<close>

lemma stem_matches_lookup:
  "stem_matches v st = [p] \<Longrightarrow> \<exists>n. map_of (vault_map v) p = Some n"
proof -
  assume "stem_matches v st = [p]"
  then have "p \<in> set (stem_matches v st)" by simp
  then have "p \<in> fst ` set (vault_map v)" by (auto simp: stem_matches_def)
  then show ?thesis by (metis domIff dom_map_of_conv_image_fst not_None_eq)
qed

lemma from_stem_one:
  "stem_matches v st = [p] \<Longrightarrow> map_of (vault_map v) p = Some n \<Longrightarrow> from_stem v st = Inr (Some n)"
  by (simp add: from_stem_def)

lemma from_stem_none: "stem_matches v st = [] \<Longrightarrow> from_stem v st = Inr None"
  by (simp add: from_stem_def)

lemma from_stem_many: "1 < length (stem_matches v st) \<Longrightarrow> from_stem v st = Inl ValueError"
  by (cases "stem_matches v st") (simp_all add: from_stem_def)

text \<open>
  C2, as stated, fails. The notes \<open>a/Foo.md\<close> and \<open>b/foo.md\<close> share the normalised
  stem \<open>foo\<close>, and the lookup of \<open>foo\<close> returns the second of them: \<open>from_stem\<close>
  compares the stems of the files as they are.
\<close>

theorem normalized_stem_counterexample:
  "normalized_matches cx_vault ''foo'' = [[''a'', ''Foo.md''], [''b'', ''foo.md'']]
   \<and> from_stem cx_vault ''foo'' = Inr (Some cx_lower)"
  by code_simp

text \<open>
  C2, amended. On the stems of the files, compared as strings: when two or more keys of
  the index have the stem asked for, the lookup raises \<open>ValueError\<close> (the code's
  AmbiguousStem); when exactly one has it, the lookup returns the note stored under that
  key; when none has it, the result is \<open>None\<close>.
\<close>

theorem from_stem_trichotomy:
  "(1 < length (stem_matches v st) \<longrightarrow> from_stem v st = Inl ValueError)
   \<and> (\<forall>p. stem_matches v st = [p] \<longrightarrow>
         (\<exists>n. map_of (vault_map v) p = Some n \<and> from_stem v st = Inr (Some n)))
   \<and> (stem_matches v st = [] \<longrightarrow> from_stem v st = Inr None)"
proof (intro conjI allI impI)
  fix p
  assume one: "stem_matches v st = [p]"
  from stem_matches_lookup[OF one] obtain n where n: "map_of (vault_map v) p = Some n" ..
  with one have "from_stem v st = Inr (Some n)" by (rule from_stem_one)
  with n show "\<exists>n. map_of (vault_map v) p = Some n \<and> from_stem v st = Inr (Some n)" by blast
qed (simp_all add: from_stem_many from_stem_none)

theorem from_stem_trichotomy_witness:
  "from_stem dup_vault ''foo'' = Inl ValueError
   \<and> from_stem cx_vault ''Foo'' = Inr (Some cx_upper)
   \<and> from_stem cx_vault ''bar'' = Inr None"
proof -
  have h1: "1 < length (stem_matches dup_vault ''foo'')"
    by code_simp
  have h2: "stem_matches cx_vault ''Foo'' = [[''a'', ''Foo.md'']]"
    by code_simp
  have h3: "stem_matches cx_vault ''bar'' = []"
    by code_simp
  have look: "map_of (vault_map cx_vault) [''a'', ''Foo.md''] = Some cx_upper"
    by (simp add: cx_vault_def)
  have a: "from_stem dup_vault ''foo'' = Inl ValueError"
    by (rule from_stem_trichotomy[THEN conjunct1, rule_format, OF h1])
  from from_stem_trichotomy[THEN conjunct2, THEN conjunct1, rule_format, OF h2]
  obtain n where n: "map_of (vault_map cx_vault) [''a'', ''Foo.md''] = Some n"
      "from_stem cx_vault ''Foo'' = Inr (Some n)"
    by (elim exE conjE)
  from n(1) have "n = cx_upper" unfolding look by (rule option.inject[THEN iffD1, symmetric])
  with n(2) have b: "from_stem cx_vault ''Foo'' = Inr (Some cx_upper)" by (simp only:)
  have c: "from_stem cx_vault ''bar'' = Inr None"
    by (rule from_stem_trichotomy[THEN conjunct2, THEN conjunct2, rule_format, OF h3])
  from a b c show ?thesis by (simp only: simp_thms)
qed

section \<open>Resolving a link\<close>

lemma get_org_roam_link_shown:
  "get_org_roam_link c link_text =
     ''[[id:'' @ org_id c @ ''][''
       @ (case link_text of Some t \<Rightarrow> t | None \<Rightarrow> shown_title c) @ '']]''"
  by (auto simp: get_org_roam_link_def shown_title_def title_def Let_def split: option.splits)

lemma ensure_link_note:
  "stem_matches v (last (split_on CHR ''/'' target)) = [p] \<Longrightarrow> map_of (vault_map v) p = Some n
     \<Longrightarrow> ensure_link v target link_text files
           = (Inr (Some (get_org_roam_link n link_text)), files)"
  by (simp add: ensure_link_def from_stem_one)

text \<open>
  C3. When the last segment of the target is the stem of exactly one key of the index,
  the resolution is the link \<open>[[id:identifier][display]]\<close> to the note stored there and
  the file system is left as it was. The display is the text of the reference when it
  has one; else the title of the metadata, when there is one that is true in a
  condition; else the stem of the note's file.
\<close>

theorem note_link_resolution:
  assumes "stem_matches v (last (split_on CHR ''/'' target)) = [p]"
  shows "\<exists>n. map_of (vault_map v) p = Some n
           \<and> ensure_link v target link_text files =
               (Inr (Some (''[[id:'' @ org_id n @ ''][''
                           @ (case link_text of Some t \<Rightarrow> t | None \<Rightarrow> shown_title n)
                           @ '']]'')), files)"
proof -
  from stem_matches_lookup[OF assms] obtain n where n: "map_of (vault_map v) p = Some n" ..
  from ensure_link_note[OF assms n]
  have "ensure_link v target link_text files = (Inr (Some (get_org_roam_link n link_text)), files)" .
  with n show ?thesis
    by (simp add: get_org_roam_link_shown)
qed

theorem note_link_resolution_witness:
  "ensure_link ex_vault ''notes/foo'' None ex_files = (Inr (Some ''[[id:foo][Foo Title]]''), ex_files)
   \<and> ensure_link ex_vault ''notes/foo'' (Some ''Custom'') ex_files
       = (Inr (Some ''[[id:foo][Custom]]''), ex_files)"
proof -
  have h: "stem_matches ex_vault (last (split_on CHR ''/'' ''notes/foo'')) = [[''notes'', ''foo.md'']]"
    by code_simp
  have oid: "org_id ex_note = ''foo''"
    by code_simp
  have sh: "shown_title ex_note = ''Foo Title''"
    by code_simp
  have look: "map_of (vault_map ex_vault) [''notes'', ''foo.md''] = Some ex_note"
    by (simp add: ex_vault_def)
  from note_link_resolution[OF h, of None ex_files]
  obtain n1 where n1: "map_of (vault_map ex_vault) [''notes'', ''foo.md''] = Some n1"
     "ensure_link ex_vault ''notes/foo'' None ex_files =
        (Inr (Some (''[[id:'' @ org_id n1 @ ''][''
                     @ (case None of Some t \<Rightarrow> t | None \<Rightarrow> shown_title n1) @ '']]'')), ex_files)"
    by (elim exE conjE)
  from n1(1) have e1: "n1 = ex_note" unfolding look by (rule option.inject[THEN iffD1, symmetric])
  have a: "ensure_link ex_vault ''notes/foo'' None ex_files
             = (Inr (Some ''[[id:foo][Foo Title]]''), ex_files)"
    using n1(2) unfolding e1 oid sh by (simp only: append.simps option.case)
  from note_link_resolution[OF h, of "Some ''Custom''" ex_files]
  obtain n2 where n2: "map_of (vault_map ex_vault) [''notes'', ''foo.md''] = Some n2"
     "ensure_link ex_vault ''notes/foo'' (Some ''Custom'') ex_files =
        (Inr (Some (''[[id:'' @ org_id n2 @ ''][''
                     @ (case Some ''Custom'' of Some t \<Rightarrow> t | None \<Rightarrow> shown_title n2)
                     @ '']]'')), ex_files)"
    by (elim exE conjE)
  from n2(1) have e2: "n2 = ex_note" unfolding look by (rule option.inject[THEN iffD1, symmetric])
  have b: "ensure_link ex_vault ''notes/foo'' (Some ''Custom'') ex_files
             = (Inr (Some ''[[id:foo][Custom]]''), ex_files)"
    using n2(2) unfolding e2 oid sh by (simp only: append.simps option.case)
  from a b show ?thesis by (rule conjI)
qed

text \<open>
  C4. When the last segment of the target is the stem of no key of the index and the
  target is the path of no indexed asset, the resolution returns, without raising and
  without touching the file system, the display text between slashes when the reference
  has one, and the target between slashes when it has none. (The pattern of a link lets
  a display text be present only when it is not empty; \<open>ensure_link\<close> treats an empty one
  as absent.)
\<close>

theorem unresolved_link_placeholder:
  assumes "stem_matches v (last (split_on CHR ''/'' target)) = []"
    and "map_of (asset_map v) (Path target) = None"
  shows "(\<forall>t. link_text = Some t \<and> t \<noteq> [] \<longrightarrow>
            ensure_link v target link_text files = (Inr (Some (''/'' @ t @ ''/'')), files))
       \<and> (link_text = None \<or> link_text = Some [] \<longrightarrow>
            ensure_link v target link_text files = (Inr (Some (''/'' @ target @ ''/'')), files))"
  using assms by (auto simp: ensure_link_def from_stem_none)

theorem unresolved_link_placeholder_witness:
  "ensure_link ex_vault ''nowhere'' (Some ''Text'') ex_files = (Inr (Some ''/Text/''), ex_files)
   \<and> ensure_link ex_vault ''nowhere'' None ex_files = (Inr (Some ''/nowhere/''), ex_files)"
proof -
  have h1: "stem_matches ex_vault (last (split_on CHR ''/'' ''nowhere'')) = []"
    by code_simp
  have h2: "map_of (asset_map ex_vault) (Path ''nowhere'') = None"
    by code_simp
  note T = unresolved_link_placeholder[OF h1 h2]
  have a: "ensure_link ex_vault ''nowhere'' (Some ''Text'') ex_files
             = (Inr (Some (''/'' @ ''Text'' @ ''/'')), ex_files)"
    by (rule T[of "Some ''Text''" ex_files, THEN conjunct1, rule_format]) simp
  have b: "ensure_link ex_vault ''nowhere'' None ex_files
             = (Inr (Some (''/'' @ ''nowhere'' @ ''/'')), ex_files)"
    by (rule T[of None ex_files, THEN conjunct2, rule_format]) simp
  from a b show ?thesis by (simp only: append.simps simp_thms)
qed







section \<open>Discovery\<close>

lemma set_update_cases: "x \<in> set (AList.update k v al) \<Longrightarrow> x = (k, v) \<or> x \<in> set al"
  by (induction al) (auto split: if_splits)

lemma note_inv_update:
  "note_inv inp vm \<Longrightarrow> suffix p \<in> set CONTENT_SUFFIXES \<Longrightarrow> \<not> skipped p
     \<Longrightarrow> relative_to p inp = Inr k
     \<Longrightarrow> note_inv inp (AList.update k (new_NoteConverter inp out p post) vm)"
  unfolding note_inv_def
  by (auto dest!: set_update_cases simp: new_NoteConverter_def)

lemma asset_inv_update:
  "asset_inv inp am \<Longrightarrow> suffix p \<in> set ASSET_SUFFIXES \<Longrightarrow> relative_to p inp = Inr k
     \<Longrightarrow> asset_inv inp (AList.update k p am)"
  unfolding asset_inv_def
  by (auto dest!: set_update_cases)

lemma scan_vault_inv:
  "scan_vault E inp out ps am0 vm0 = Inr (am, vm) \<Longrightarrow> note_inv inp vm0 \<Longrightarrow> asset_inv inp am0
     \<Longrightarrow> note_inv inp vm \<and> asset_inv inp am"
proof (induction ps arbitrary: am0 vm0)
  case Nil
  then show ?case by simp
next
  case (Cons p ps)
  from Cons.prems(1) obtain k where k: "relative_to p inp = Inr k"
    by (cases "relative_to p inp") simp_all
  show ?case
  proof (cases "suffix p \<in> set ASSET_SUFFIXES")
    case True
    with Cons.prems(1) k
    have "scan_vault E inp out ps (AList.update k p am0) vm0 = Inr (am, vm)" by simp
    from Cons.IH[OF this Cons.prems(2) asset_inv_update[OF Cons.prems(3) True k]]
    show ?thesis .
  next
    case False
    show ?thesis
    proof (cases "suffix p \<in> set CONTENT_SUFFIXES \<and> \<not> skipped p")
      case True
      with Cons.prems(1) k False
      have "scan_vault E inp out ps am0
              (AList.update k (new_NoteConverter inp out p (read_post E p)) vm0) = Inr (am, vm)"
        by (simp add: skipped_def)
      from Cons.IH[OF this note_inv_update[OF Cons.prems(2) _ _ k] Cons.prems(3)] True
      show ?thesis by blast
    next
      case skip: False
      with Cons.prems(1) k False
      have "scan_vault E inp out ps am0 vm0 = Inr (am, vm)"
        by (auto simp: skipped_def split: if_splits)
      from Cons.IH[OF this Cons.prems(2,3)] show ?thesis .
    qed
  qed
qed

lemma relative_to_rebuild: "relative_to p inp = Inr k \<Longrightarrow> p = inp @ k"
proof -
  assume "relative_to p inp = Inr k"
  then have "take (length inp) p = inp" "k = drop (length inp) p"
    by (auto simp: relative_to_def split: if_splits)
  then show ?thesis
    using append_take_drop_id[of "length inp" p] by simp
qed

lemma relative_to_inject:
  "relative_to p inp = Inr k \<Longrightarrow> relative_to q inp = Inr k \<Longrightarrow> p = q"
  using relative_to_rebuild[of p inp k] relative_to_rebuild[of q inp k] by simp

lemma suffix_classes_disjoint: "s \<in> set CONTENT_SUFFIXES \<Longrightarrow> s \<notin> set ASSET_SUFFIXES"
  by (auto simp: CONTENT_SUFFIXES_def ASSET_SUFFIXES_def)

text \<open>
  C7, as stated, fails for assets. The image \<open>_private/pic.png\<close> lies in a directory whose
  name starts with the marker, and the loop stores it in the asset dictionary all the
  same; a link to it then copies it into the output tree.
\<close>

theorem excluded_asset_counterexample:
  "skipped [''vault'', ''_private'', ''pic.png'']
   \<and> scan_vault ex_env [''vault''] [''out''] (globbed ex_env) [] []
       = Inr ([([''_private'', ''pic.png''], [''vault'', ''_private'', ''pic.png''])],
              [([''notes'', ''foo.md''], ex_note)])
   \<and> ensure_link
         \<lparr>vault_map = [([''notes'', ''foo.md''], ex_note)],
          asset_map = [([''_private'', ''pic.png''], [''vault'', ''_private'', ''pic.png''])],
          vault_output_dir = [''out'']\<rparr>
         ''_private/pic.png'' None [([''vault'', ''_private'', ''pic.png''], ''PNG'')]
       = (Inr (Some ''[[_private/pic.png]]''),
          [([''vault'', ''_private'', ''pic.png''], ''PNG''),
           ([''out'', ''_private'', ''pic.png''], ''PNG'')])"
  by code_simp

text \<open>
  C7, amended to content files. A file with a content suffix whose directory's name
  starts with \<open>_\<close>, or whose own stem starts with \<open>_\<close>, or whose path as a string
  contains \<open>/config/\<close>, is the source of no note of the index and of no asset, its
  relative path is a key of neither dictionary, and no rendering job is made for it.
\<close>

theorem skipped_notes_not_indexed:
  assumes "scan_vault E inp out ps [] [] = Inr (am, vm)"
    and "suffix p \<in> set CONTENT_SUFFIXES"
    and "skipped p"
  shows "(\<forall>(k, c) \<in> set vm. source c \<noteq> p)
       \<and> (\<forall>(k, a) \<in> set am. a \<noteq> p)
       \<and> (\<forall>k. relative_to p inp = Inr k \<longrightarrow> k \<notin> fst ` set vm \<and> k \<notin> fst ` set am)
       \<and> (\<forall>job \<in> set (render_jobs \<lparr>vault_map = vm, asset_map = am, vault_output_dir = out\<rparr>).
             source (fst job) \<noteq> p)"
proof -
  have "note_inv inp [] \<and> asset_inv inp []"
    by (simp add: note_inv_def asset_inv_def)
  with scan_vault_inv[OF assms(1)] have inv: "note_inv inp vm" "asset_inv inp am"
    by blast+
  have 1: "\<forall>(k, c) \<in> set vm. source c \<noteq> p"
    using inv(1) assms(3) unfolding note_inv_def by blast
  have 2: "\<forall>(k, a) \<in> set am. a \<noteq> p"
    using inv(2) assms(2) suffix_classes_disjoint unfolding asset_inv_def by blast
  have 3: "\<forall>k. relative_to p inp = Inr k \<longrightarrow> k \<notin> fst ` set vm \<and> k \<notin> fst ` set am"
  proof (intro allI impI conjI)
    fix k
    assume k: "relative_to p inp = Inr k"
    show "k \<notin> fst ` set vm"
    proof
      assume "k \<in> fst ` set vm"
      then obtain c where c: "(k, c) \<in> set vm" by auto
      with inv(1) have "relative_to (source c) inp = Inr k" unfolding note_inv_def by blast
      with k have "source c = p" by (rule relative_to_inject[rotated])
      with 1 c show False by blast
    qed
    show "k \<notin> fst ` set am"
    proof
      assume "k \<in> fst ` set am"
      then obtain a where a: "(k, a) \<in> set am" by auto
      with inv(2) have "relative_to a inp = Inr k" unfolding asset_inv_def by blast
      with k have "a = p" by (rule relative_to_inject[rotated])
      with 2 a show False by blast
    qed
  qed
  have 4: "\<forall>job \<in> set (render_jobs \<lparr>vault_map = vm, asset_map = am, vault_output_dir = out\<rparr>).
             source (fst job) \<noteq> p"
    using 1 by (auto simp: render_jobs_def)
  from 1 2 3 4 show ?thesis by (intro conjI)
qed

theorem skipped_notes_not_indexed_witness:
  "skipped [''vault'', ''_private'', ''secret.md'']
   \<and> scan_vault ex_env [''vault''] [''out''] (globbed ex_env) [] []
       = Inr ([([''_private'', ''pic.png''], [''vault'', ''_private'', ''pic.png''])],
              [([''notes'', ''foo.md''], ex_note)])
   \<and> [''_private'', ''secret.md''] \<notin> fst ` set [([''notes'', ''foo.md''], ex_note)]
   \<and> [''_private'', ''secret.md'']
        \<notin> fst ` set [([''_private'', ''pic.png''], [''vault'', ''_private'', ''pic.png''])]"
proof -
  let ?p = "[''vault'', ''_private'', ''secret.md'']"
  have sk: "skipped ?p"
    by code_simp
  have sfx: "suffix ?p \<in> set CONTENT_SUFFIXES"
    by code_simp
  have sc: "scan_vault ex_env [''vault''] [''out''] (globbed ex_env) [] []
       = Inr ([([''_private'', ''pic.png''], [''vault'', ''_private'', ''pic.png''])],
              [([''notes'', ''foo.md''], ex_note)])"
    by code_simp
  have rel: "relative_to ?p [''vault''] = Inr [''_private'', ''secret.md'']"
    by code_simp
  note T = skipped_notes_not_indexed[OF sc sfx sk, THEN conjunct2, THEN conjunct2, THEN conjunct1,
      rule_format, OF rel]
  from sk sc T show ?thesis by (intro conjI) (simp_all only: simp_thms)
qed

section \<open>Failures while rendering\<close>

lemma pool_map_fails:
  "x \<in> set xs \<Longrightarrow> \<forall>files. isl (fst (f x files)) \<Longrightarrow> isl (pool_map f xs files0)"
proof (induction xs arbitrary: files0)
  case Nil
  then show ?case by simp
next
  case (Cons y ys)
  show ?case
  proof (cases "f y files0")
    case (Pair r files')
    show ?thesis
    proof (cases r)
      case (Inl e)
      with Pair show ?thesis by simp
    next
      case (Inr u)
      with Pair Cons.prems have "x \<in> set ys"
        by (metis fst_conv set_ConsD sum.disc(2))
      from Cons.IH[OF this Cons.prems(2)] Pair Inr show ?thesis by simp
    qed
  qed
qed

lemma sub_links_step:
  "isl (fst (find_link v m l t files)) \<or>
     (\<forall>fl. isl (fst (sub_links v toks fl))) \<Longrightarrow> isl (fst (sub_links v (Link m l t # toks) files))"
proof (cases "find_link v m l t files")
  case (Pair r files')
  assume a: "isl (fst (find_link v m l t files)) \<or> (\<forall>fl. isl (fst (sub_links v toks fl)))"
  show ?thesis
  proof (cases r)
    case (Inl e)
    with Pair show ?thesis by simp
  next
    case (Inr s)
    with Pair a have "isl (fst (sub_links v toks files'))" by simp
    then obtain e fl where "sub_links v toks files' = (Inl e, fl)"
      by (cases "sub_links v toks files'") (auto simp: isl_def)
    with Pair Inr show ?thesis by simp
  qed
qed

lemma sub_links_lit:
  "isl (fst (sub_links v toks files)) \<Longrightarrow> isl (fst (sub_links v (Lit c # toks) files))"
  by (cases "sub_links v toks files") (auto simp: isl_def)

lemma sub_links_ambiguous:
  "Link m l t \<in> set toks \<Longrightarrow> 1 < length (stem_matches v (last (split_on CHR ''/'' l)))
     \<Longrightarrow> isl (fst (sub_links v toks files))"
proof (induction toks arbitrary: files)
  case Nil
  then show ?case by simp
next
  case (Cons tok toks)
  have amb: "isl (fst (find_link v m l t files))"
    using Cons.prems(2) by (simp add: find_link_def ensure_link_def from_stem_many)
  show ?case
  proof (cases "tok = Link m l t")
    case True
    with sub_links_step[of v m l t files toks] amb show ?thesis by blast
  next
    case False
    with Cons.prems have later: "Link m l t \<in> set toks" by simp
    show ?thesis
    proof (cases tok)
      case (Lit c)
      with sub_links_lit[OF Cons.IH[OF later Cons.prems(2)], of c] show ?thesis by simp
    next
      case (Link m' l' t')
      with sub_links_step[of v m' l' t' files toks] Cons.IH[OF later Cons.prems(2)]
      show ?thesis by blast
    qed
  qed
qed

text \<open>
  C1, as stated, fails. In a vault of two notes of which the second has no \<open>created\<close>
  date, rendering the second raises \<open>KeyError\<close>; rendering the first alone succeeds;
  and the run over the vault does not complete: \<open>main\<close> ends with the \<open>KeyError\<close>.
\<close>

theorem batch_not_isolated_counterexample:
  "process_note (convert_text cx_env) (cx_bad, cx_pair) [] = (Inl KeyError, [])
   \<and> fst (process_note (convert_text cx_env) (cx_good, cx_pair) []) = Inr ()
   \<and> scan_vault cx_env (Path ''vault'') (Path ''out'') (globbed cx_env) [] []
       = Inr (asset_map cx_pair, vault_map cx_pair)
   \<and> main cx_env ''vault'' ''out'' [] = Inl KeyError"
  by code_simp

text \<open>
  C1, amended. A failure raised while rendering a note is not caught anywhere. A note
  without a usable timestamp makes \<open>process_note\<close> raise before anything is written,
  leaving the file system as it was. A note whose text holds a link to a stem that
  several keys of the index have makes \<open>process_note\<close> raise; the file system is then
  what the link resolutions left, the text of the note not being written. And when
  rendering some note of the vault raises whatever the state of the output tree,
  \<open>pool.map\<close> raises in \<open>main\<close> and the run ends with an error instead of completing.
  What becomes of the other notes of such a run is not stated.
\<close>

theorem render_failure_propagates:
  "(org_path c = Inl e \<longrightarrow> process_note pandoc (c, v) files = (Inl e, files))
   \<and> (\<forall>body m l t. as_org pandoc c = Inr body \<and> Link m l t \<in> set (finditer 0 body)
         \<and> 1 < length (stem_matches v (last (split_on CHR ''/'' l)))
         \<longrightarrow> isl (fst (process_note pandoc (c, v) files))
             \<and> snd (process_note pandoc (c, v) files)
                 = snd (sub_links v (finditer 0 body) files))
   \<and> (\<forall>am vm k. input_exists E
         \<and> scan_vault E (Path arg_input) (Path arg_output) (globbed E) [] [] = Inr (am, vm)
         \<and> (k, c) \<in> set vm
         \<and> (\<forall>fl. isl (fst (process_note (convert_text E)
                  (c, \<lparr>vault_map = vm, asset_map = am, vault_output_dir = Path arg_output\<rparr>) fl)))
         \<longrightarrow> isl (main E arg_input arg_output files))"
proof -
  have missing: "org_path c = Inl e \<longrightarrow> process_note pandoc (c, v) files = (Inl e, files)"
    by (simp add: process_note_def)
  have ambiguous: "\<forall>body m l t. as_org pandoc c = Inr body \<and> Link m l t \<in> set (finditer 0 body)
         \<and> 1 < length (stem_matches v (last (split_on CHR ''/'' l)))
         \<longrightarrow> isl (fst (process_note pandoc (c, v) files))
             \<and> snd (process_note pandoc (c, v) files)
                 = snd (sub_links v (finditer 0 body) files)"
  proof (intro allI impI)
    fix body m l t
    assume a: "as_org pandoc c = Inr body \<and> Link m l t \<in> set (finditer 0 body)
         \<and> 1 < length (stem_matches v (last (split_on CHR ''/'' l)))"
    then have "isl (fst (sub_links v (finditer 0 body) files))"
      using sub_links_ambiguous by blast
    then obtain e' fl where s: "sub_links v (finditer 0 body) files = (Inl e', fl)"
      by (cases "sub_links v (finditer 0 body) files") (auto simp: isl_def)
    from a obtain file_name where o: "org_path c = Inr file_name"
      by (cases "org_path c") (auto simp: as_org_def org_content_def generate_org_content_def)
    from a s o have "process_note pandoc (c, v) files = (Inl e', fl)"
      by (simp add: process_note_def Let_def)
    with s show "isl (fst (process_note pandoc (c, v) files))
             \<and> snd (process_note pandoc (c, v) files)
                 = snd (sub_links v (finditer 0 body) files)"
      by simp
  qed
  have batch: "\<forall>am vm k. input_exists E
         \<and> scan_vault E (Path arg_input) (Path arg_output) (globbed E) [] [] = Inr (am, vm)
         \<and> (k, c) \<in> set vm
         \<and> (\<forall>fl. isl (fst (process_note (convert_text E)
                  (c, \<lparr>vault_map = vm, asset_map = am, vault_output_dir = Path arg_output\<rparr>) fl)))
         \<longrightarrow> isl (main E arg_input arg_output files)"
  proof (intro allI impI)
    fix am vm k
    let ?vault = "\<lparr>vault_map = vm, asset_map = am, vault_output_dir = Path arg_output\<rparr>"
    assume a: "input_exists E
         \<and> scan_vault E (Path arg_input) (Path arg_output) (globbed E) [] [] = Inr (am, vm)
         \<and> (k, c) \<in> set vm
         \<and> (\<forall>fl. isl (fst (process_note (convert_text E) (c, ?vault) fl)))"
    then have "(c, ?vault) \<in> set (render_jobs ?vault)"
      by (force simp: render_jobs_def)
    moreover from a have "\<forall>fl. isl (fst (process_note (convert_text E) (c, ?vault) fl))"
      by (elim conjE)
    ultimately have "isl (pool_map (process_note (convert_text E)) (render_jobs ?vault) files)"
      by (rule pool_map_fails)
    with a show "isl (main E arg_input arg_output files)"
      by (simp add: main_def Let_def)
  qed
  from missing ambiguous batch show ?thesis by (intro conjI)
qed

theorem render_failure_propagates_witness:
  "process_note (convert_text cx_env) (cx_bad, cx_pair) [] = (Inl KeyError, [])
   \<and> isl (fst (process_note (convert_text cx_env) (ex_linker, dup_vault) []))
   \<and> isl (main cx_env ''vault'' ''out'' [])"
proof -
  let ?body = "projr (as_org (convert_text cx_env) ex_linker)"
  let ?vault = "\<lparr>vault_map = vault_map cx_pair, asset_map = asset_map cx_pair,
                  vault_output_dir = Path ''out''\<rparr>"
  have h1: "org_path cx_bad = Inl KeyError"
    by code_simp
  have a: "process_note (convert_text cx_env) (cx_bad, cx_pair) [] = (Inl KeyError, [])"
    by (rule render_failure_propagates[THEN conjunct1, rule_format, OF h1])
  have h2: "as_org (convert_text cx_env) ex_linker = Inr ?body
        \<and> Link ''[[file:notes/foo]]'' ''notes/foo'' None \<in> set (finditer 0 ?body)
        \<and> 1 < length (stem_matches dup_vault (last (split_on CHR ''/'' ''notes/foo'')))"
    by code_simp
  have b: "isl (fst (process_note (convert_text cx_env) (ex_linker, dup_vault) []))"
    by (rule render_failure_propagates[THEN conjunct2, THEN conjunct1, rule_format, OF h2,
          THEN conjunct1])
  have f: "\<forall>fl. isl (fst (process_note (convert_text cx_env) (cx_bad, ?vault) fl))"
  proof
    fix fl
    from render_failure_propagates[THEN conjunct1, rule_format, OF h1]
    have "process_note (convert_text cx_env) (cx_bad, ?vault) fl = (Inl KeyError, fl)" .
    then show "isl (fst (process_note (convert_text cx_env) (cx_bad, ?vault) fl))" by simp
  qed
  have s: "scan_vault cx_env (Path ''vault'') (Path ''out'') (globbed cx_env) [] []
       = Inr (asset_map cx_pair, vault_map cx_pair)"
    by code_simp
  have i: "input_exists cx_env"
    by code_simp
  have m: "([''notes'', ''bad.md''], cx_bad) \<in> set (vault_map cx_pair)"
    by (simp add: cx_pair_def)
  from i s m f
  have h3: "input_exists cx_env
        \<and> scan_vault cx_env (Path ''vault'') (Path ''out'') (globbed cx_env) [] []
            = Inr (asset_map cx_pair, vault_map cx_pair)
        \<and> ([''notes'', ''bad.md''], cx_bad) \<in> set (vault_map cx_pair)
        \<and> (\<forall>fl. isl (fst (process_note (convert_text cx_env) (cx_bad, ?vault) fl)))"
    by (intro conjI)
  have c: "isl (main cx_env ''vault'' ''out'' [])"
    by (rule render_failure_propagates[THEN conjunct2, THEN conjunct2, rule_format, OF h3])
  from a b c show ?thesis by (intro conjI)
qed

end
